theory Spec2Isabelle
  imports Main "HOL-Library.Multiset"
begin

section \<open>Strings and the path resolver\<close>

text \<open>
  The client of \<^verbatim>\<open>app/lib/webdev-client.ts\<close> is embedded function by function.
  A JavaScript string is a sequence of code units; it is modelled as \<^typ>\<open>string\<close>,
  the code units being those of the range 0..255. The separator is \<^verbatim>\<open>/\<close>.
\<close>

text \<open>\<^verbatim>\<open>s.replace(/^\//, "")\<close>: one separator is removed from the front, if there is one.\<close>

fun strip_leading_slash :: "string \<Rightarrow> string" where
  "strip_leading_slash [] = []"
| "strip_leading_slash (c # cs) = (if c = CHR ''/'' then cs else c # cs)"

text \<open>\<^verbatim>\<open>s.replace(/\/$/, "")\<close>: one separator is removed from the end, if there is one.\<close>

definition strip_trailing_slash :: "string \<Rightarrow> string" where
  "strip_trailing_slash s = (if s \<noteq> [] \<and> last s = CHR ''/'' then butlast s else s)"

text \<open>
  \<^verbatim>\<open>s.replace(/^\/|\/$/g, "")\<close>: the global scan takes the first alternative at index 0
  only, and the second alternative at the last index only; a lone \<^verbatim>\<open>/\<close> is consumed by
  the first alternative, after which nothing is left for the second one. So the result
  is the string without one leading separator and then without one trailing separator.
\<close>

definition strip_both_slashes :: "string \<Rightarrow> string" where
  "strip_both_slashes s = strip_trailing_slash (strip_leading_slash s)"

text \<open>\<^verbatim>\<open>s.endsWith("/")\<close>.\<close>

definition endsWith_slash :: "string \<Rightarrow> bool" where
  "endsWith_slash s = (s \<noteq> [] \<and> last s = CHR ''/'')"

record WebdevConfig =
  endpoint :: string
  username :: string
  password :: string
  basePath :: "string option"

text \<open>
  \<^verbatim>\<open>this.config.basePath?.replace(/^\/|\/$/g, "") || ""\<close>: an absent base path and one
  that is stripped to the empty string both give the empty string.
\<close>

definition config_basePath :: "WebdevConfig \<Rightarrow> string" where
  "config_basePath cfg = (case basePath cfg of None \<Rightarrow> [] | Some b \<Rightarrow> strip_both_slashes b)"

definition getFullPath :: "WebdevConfig \<Rightarrow> string \<Rightarrow> string" where
  "getFullPath cfg path =
     (let basePath' = config_basePath cfg;
          cleanPath = strip_leading_slash path
      in if basePath' \<noteq> [] then basePath' @ ''/'' @ cleanPath else cleanPath)"

definition normalizeEndpoint :: "string \<Rightarrow> string" where
  "normalizeEndpoint e = strip_trailing_slash e"

section \<open>Numbers, thrown values and the transport\<close>

text \<open>
  A JavaScript number that \<^verbatim>\<open>parseInt\<close> can return: \<^verbatim>\<open>NaN\<close>, an integer that is a double,
  \<^verbatim>\<open>Infinity\<close> or \<^verbatim>\<open>-Infinity\<close>. The sign of zero is not modelled.
\<close>

datatype js_number = NaN | Num int | PosInfinity | NegInfinity

text \<open>
  The double nearest to a non-negative integer (ties to even), or \<^term>\<open>None\<close> beyond the
  range of the doubles: below \<^verbatim>\<open>2^53\<close> every integer is a double; above, the 53 leading
  bits are kept and the rest is rounded.
\<close>

function bit_length :: "int \<Rightarrow> nat" where
  "bit_length n = (if n \<le> 0 then 0 else Suc (bit_length (n div 2)))"
  by pat_completeness auto
termination
  by (relation "measure nat") auto

declare bit_length.simps [simp del]

definition round_to_double :: "int \<Rightarrow> int option" where
  "round_to_double n =
     (if n < 2 ^ 53 then Some n
      else
        (let e = bit_length n - 53;
             q = n div 2 ^ e;
             r = n mod 2 ^ e;
             half = 2 ^ (e - 1);
             q' = (if half < r \<or> (r = half \<and> odd q) then q + 1 else q);
             v = q' * 2 ^ e
         in if 2 ^ 1024 \<le> v then None else Some v))"

text \<open>The Number for a sign and a magnitude.\<close>

definition to_Number :: "bool \<Rightarrow> int \<Rightarrow> js_number" where
  "to_Number negative n =
     (case round_to_double n of
        None \<Rightarrow> if negative then NegInfinity else PosInfinity
      | Some v \<Rightarrow> Num (if negative then - v else v))"

text \<open>
  A thrown value: an instance of \<^verbatim>\<open>Error\<close> (of any subclass) with its message, or a value
  that is not an instance of \<^verbatim>\<open>Error\<close>.
\<close>

datatype thrown = Error string | NonError

record http_request =
  http_method :: string
  url :: string
  headers :: "(string \<times> string) list"
  body :: "string option"

text \<open>
  A response: its status, \<^verbatim>\<open>response.headers.get\<close> and the outcome of
  \<^verbatim>\<open>await response.text()\<close>, which gives the body or is rejected.
\<close>

record http_response =
  status :: nat
  headers_get :: "string \<Rightarrow> string option"
  body_text :: "thrown + string"

datatype fetch_result = Rejects thrown | Resolves http_response

text \<open>
  What the client takes from its platform: \<^verbatim>\<open>fetch\<close>, \<^verbatim>\<open>decodeURIComponent\<close> (which
  throws on a malformed escape) and \<^verbatim>\<open>String.prototype.localeCompare\<close>.
\<close>

record platform =
  fetch :: "http_request \<Rightarrow> fetch_result"
  decodeURIComponent :: "string \<Rightarrow> thrown + string"
  localeCompare :: "string \<Rightarrow> string \<Rightarrow> int"

text \<open>\<^verbatim>\<open>response.ok\<close>: the status is in the range 200..299.\<close>

definition ok :: "http_response \<Rightarrow> bool" where
  "ok r = (200 \<le> status r \<and> status r \<le> 299)"

text \<open>The decimal rendering of a status in a template literal.\<close>

function toString_nat :: "nat \<Rightarrow> string" where
  "toString_nat n =
     (if n < 10 then [''0123456789'' ! n]
      else toString_nat (n div 10) @ [''0123456789'' ! (n mod 10)])"
  by pat_completeness auto
termination
  by (relation "measure id") auto

declare toString_nat.simps [simp del]

text \<open>
  \<^verbatim>\<open>parseInt(s, 10)\<close>: leading white space is skipped, one sign is read, then the longest
  run of decimal digits; without a digit the result is \<^verbatim>\<open>NaN\<close>, and otherwise the Number
  for the sign and the integer that the digits denote. (For more than 20 significant
  digits the language lets an implementation read the later digits as 0; the value here
  is the correctly rounded one, and the statements below that give an exact size are
  about values below \<^verbatim>\<open>2^53\<close>.)
\<close>

definition js_whitespace :: "char \<Rightarrow> bool" where
  "js_whitespace c =
     (c \<in> set [CHR 0x09, CHR 0x0A, CHR 0x0B, CHR 0x0C, CHR 0x0D, CHR 0x20, CHR 0xA0])"

definition is_digit :: "char \<Rightarrow> bool" where
  "is_digit c = (c \<in> set ''0123456789'')"

definition digit_value :: "char \<Rightarrow> nat" where
  "digit_value c = of_char c - 48"

definition decimal_value :: "string \<Rightarrow> int" where
  "decimal_value ds = foldl (\<lambda>acc c. 10 * acc + int (digit_value c)) 0 ds"

definition parseInt10 :: "string \<Rightarrow> js_number" where
  "parseInt10 s =
     (let t = dropWhile js_whitespace s;
          negative = (case t of [] \<Rightarrow> False | c # cs \<Rightarrow> c = CHR ''-'');
          u = (case t of [] \<Rightarrow> []
               | c # cs \<Rightarrow> if c = CHR ''+'' \<or> c = CHR ''-'' then cs else c # cs);
          z = takeWhile is_digit u
      in if z = [] then NaN
         else to_Number negative (decimal_value z))"

text \<open>
  \<^verbatim>\<open>btoa\<close>: base64 of the code units. (It throws on a code unit above 255; the string
  model has none.)
\<close>

definition base64_digit :: "nat \<Rightarrow> char" where
  "base64_digit n =
     ''ABCDEFGHIJKLMNOPQRSTUVWXYZabcdefghijklmnopqrstuvwxyz0123456789+/'' ! n"

fun base64_encode :: "nat list \<Rightarrow> string" where
  "base64_encode (a # b # c # r) =
     [base64_digit (a div 4), base64_digit ((a mod 4) * 16 + b div 16),
      base64_digit ((b mod 16) * 4 + c div 64), base64_digit (c mod 64)] @ base64_encode r"
| "base64_encode [a, b] =
     [base64_digit (a div 4), base64_digit ((a mod 4) * 16 + b div 16),
      base64_digit ((b mod 16) * 4), CHR ''='']"
| "base64_encode [a] =
     [base64_digit (a div 4), base64_digit ((a mod 4) * 16), CHR ''='', CHR ''='']"
| "base64_encode [] = []"

definition btoa :: "string \<Rightarrow> string" where
  "btoa s = base64_encode (map of_char s)"

definition getBasicAuth :: "WebdevConfig \<Rightarrow> string" where
  "getBasicAuth cfg =
     (let credentials = username cfg @ '':'' @ password cfg in ''Basic '' @ btoa credentials)"

text \<open>
  The \<^verbatim>\<open>catch\<close> clause every operation ends with:
  \<^verbatim>\<open>throw new Error(`WebDAV <operation> failed: ${error instanceof Error ? error.message : "Unknown error"}`)\<close>.
\<close>

definition failure_message :: "thrown \<Rightarrow> string" where
  "failure_message e = (case e of Error m \<Rightarrow> m | NonError \<Rightarrow> ''Unknown error'')"

definition catch_as :: "string \<Rightarrow> thrown + 'a \<Rightarrow> thrown + 'a" where
  "catch_as operation outcome =
     (case outcome of
        Inl e \<Rightarrow> Inl (Error (''WebDAV '' @ operation @ '' failed: '' @ failure_message e))
      | Inr v \<Rightarrow> Inr v)"

text \<open>\<^verbatim>\<open>value || fallback\<close> on the result of \<^verbatim>\<open>headers.get\<close>: null and the empty string fall back.\<close>

definition or_else :: "string option \<Rightarrow> string \<Rightarrow> string" where
  "or_else v fallback = (case v of None \<Rightarrow> fallback | Some t \<Rightarrow> if t = [] then fallback else t)"

section \<open>The operations with a status mapping\<close>

definition deleteObject_request :: "WebdevConfig \<Rightarrow> string \<Rightarrow> http_request" where
  "deleteObject_request cfg key =
     (let fullKey = getFullPath cfg key;
          endpoint' = normalizeEndpoint (endpoint cfg);
          url' = endpoint' @ ''/'' @ fullKey
      in \<lparr>http_method = ''DELETE'', url = url',
          headers = [(''Authorization'', getBasicAuth cfg)], body = None\<rparr>)"

definition deleteObject :: "platform \<Rightarrow> WebdevConfig \<Rightarrow> string \<Rightarrow> thrown + unit" where
  "deleteObject p cfg key =
     catch_as ''deleteObject''
       (case fetch p (deleteObject_request cfg key) of
          Rejects e \<Rightarrow> Inl e
        | Resolves response \<Rightarrow>
            if \<not> ok response \<and> status response \<noteq> 204 then
              (case body_text response of
                 Inl e \<Rightarrow> Inl e
               | Inr text' \<Rightarrow>
                   Inl (Error (''WebDAV DeleteObject failed: '' @ toString_nat (status response)
                               @ '' '' @ text')))
            else Inr ())"

definition createFolder_request :: "WebdevConfig \<Rightarrow> string \<Rightarrow> http_request" where
  "createFolder_request cfg folderPath =
     (let normalizedPath = (if endsWith_slash folderPath then folderPath else folderPath @ ''/'');
          fullKey = getFullPath cfg normalizedPath;
          endpoint' = normalizeEndpoint (endpoint cfg);
          url' = endpoint' @ ''/'' @ fullKey
      in \<lparr>http_method = ''MKCOL'', url = url',
          headers = [(''Authorization'', getBasicAuth cfg)], body = None\<rparr>)"

definition createFolder :: "platform \<Rightarrow> WebdevConfig \<Rightarrow> string \<Rightarrow> thrown + unit" where
  "createFolder p cfg folderPath =
     catch_as ''createFolder''
       (case fetch p (createFolder_request cfg folderPath) of
          Rejects e \<Rightarrow> Inl e
        | Resolves response \<Rightarrow>
            if \<not> ok response \<and> status response \<noteq> 201 then
              (case body_text response of
                 Inl e \<Rightarrow> Inl e
               | Inr text' \<Rightarrow>
                   Inl (Error (''WebDAV MKCOL failed: '' @ toString_nat (status response)
                               @ '' '' @ text')))
            else Inr ())"

text \<open>
  \<^verbatim>\<open>copyObject\<close> computes \<^verbatim>\<open>fullSourceKey\<close> and \<^verbatim>\<open>sourceUrl\<close> and passes \<^verbatim>\<open>destUrl\<close> both
  as the request URL and as the \<^verbatim>\<open>Destination\<close> header.
\<close>

definition copyObject_request :: "WebdevConfig \<Rightarrow> string \<Rightarrow> string \<Rightarrow> http_request" where
  "copyObject_request cfg sourceKey destKey =
     (let fullSourceKey = getFullPath cfg sourceKey;
          fullDestKey = getFullPath cfg destKey;
          endpoint' = normalizeEndpoint (endpoint cfg);
          sourceUrl = endpoint' @ ''/'' @ fullSourceKey;
          destUrl = endpoint' @ ''/'' @ fullDestKey
      in \<lparr>http_method = ''COPY'', url = destUrl,
          headers = [(''Authorization'', getBasicAuth cfg), (''Destination'', destUrl),
                     (''Overwrite'', ''F'')],
          body = None\<rparr>)"

definition copyObject :: "platform \<Rightarrow> WebdevConfig \<Rightarrow> string \<Rightarrow> string \<Rightarrow> thrown + unit" where
  "copyObject p cfg sourceKey destKey =
     catch_as ''copyObject''
       (case fetch p (copyObject_request cfg sourceKey destKey) of
          Rejects e \<Rightarrow> Inl e
        | Resolves response \<Rightarrow>
            if \<not> ok response \<and> status response \<noteq> 201 \<and> status response \<noteq> 204 then
              (case body_text response of
                 Inl e \<Rightarrow> Inl e
               | Inr text' \<Rightarrow>
                   Inl (Error (''WebDAV COPY failed: '' @ toString_nat (status response)
                               @ '' '' @ text')))
            else Inr ())"

record HeadResult =
  contentLength :: js_number
  contentType :: string
  head_lastModified :: string

definition headObject_request :: "WebdevConfig \<Rightarrow> string \<Rightarrow> http_request" where
  "headObject_request cfg key =
     (let fullKey = getFullPath cfg key;
          endpoint' = normalizeEndpoint (endpoint cfg);
          url' = endpoint' @ ''/'' @ fullKey
      in \<lparr>http_method = ''HEAD'', url = url',
          headers = [(''Authorization'', getBasicAuth cfg)], body = None\<rparr>)"

text \<open>The result \<^verbatim>\<open>null\<close> is \<^term>\<open>None\<close>.\<close>

definition headObject :: "platform \<Rightarrow> WebdevConfig \<Rightarrow> string \<Rightarrow> thrown + HeadResult option" where
  "headObject p cfg key =
     catch_as ''headObject''
       (case fetch p (headObject_request cfg key) of
          Rejects e \<Rightarrow> Inl e
        | Resolves response \<Rightarrow>
            if status response = 404 then Inr None
            else if \<not> ok response then
              Inl (Error (''WebDAV HeadObject failed: '' @ toString_nat (status response)))
            else
              Inr (Some
                \<lparr>contentLength =
                   parseInt10 (or_else (headers_get response ''content-length'') ''0''),
                 contentType =
                   or_else (headers_get response ''content-type'') ''application/octet-stream'',
                 head_lastModified = or_else (headers_get response ''last-modified'') []\<rparr>))"

section \<open>The listing parse\<close>

subsection \<open>The regular expressions\<close>

text \<open>
  Every pattern of the parse has the shape \<^verbatim>\<open>/open(X*?)close/\<close> with literal texts
  \<^verbatim>\<open>open\<close> and \<^verbatim>\<open>close\<close>, where \<^verbatim>\<open>X\<close> is \<^verbatim>\<open>.\<close> (any code unit but a line terminator) or
  \<^verbatim>\<open>[\s\S]\<close> (any code unit). The matcher is the backtracking one of the language: the
  start positions are tried from left to right; at a start position the lazy group
  grows by one code unit at a time until \<^verbatim>\<open>close\<close> follows, and the attempt at this start
  position fails when a code unit outside \<^verbatim>\<open>X\<close> comes first or the input ends.
\<close>

fun starts_with :: "string \<Rightarrow> string \<Rightarrow> bool" where
  "starts_with [] s = True"
| "starts_with (a # as) [] = False"
| "starts_with (a # as) (c # cs) = (a = c \<and> starts_with as cs)"

definition line_terminator :: "char \<Rightarrow> bool" where
  "line_terminator c = (c = CHR 0x0A \<or> c = CHR 0x0D)"

definition dot :: "char \<Rightarrow> bool" where
  "dot c = (\<not> line_terminator c)"

definition any_char :: "char \<Rightarrow> bool" where
  "any_char c = True"

text \<open>The lazy group and the closing text, from the current position: the capture and the input after the match.\<close>

fun lazy_until :: "(char \<Rightarrow> bool) \<Rightarrow> string \<Rightarrow> string \<Rightarrow> (string \<times> string) option" where
  "lazy_until X close [] = (if close = [] then Some ([], []) else None)"
| "lazy_until X close (c # cs) =
     (if starts_with close (c # cs) then Some ([], drop (length close) (c # cs))
      else if X c then
        (case lazy_until X close cs of
           None \<Rightarrow> None
         | Some (capture, rest) \<Rightarrow> Some (c # capture, rest))
      else None)"

definition match_here :: "string \<Rightarrow> (char \<Rightarrow> bool) \<Rightarrow> string \<Rightarrow> string \<Rightarrow> (string \<times> string) option" where
  "match_here open' X close s =
     (if starts_with open' s then lazy_until X close (drop (length open') s) else None)"

text \<open>The leftmost match: the capture and the input after the match.\<close>

fun regex_search :: "string \<Rightarrow> (char \<Rightarrow> bool) \<Rightarrow> string \<Rightarrow> string \<Rightarrow> (string \<times> string) option" where
  "regex_search open' X close [] = match_here open' X close []"
| "regex_search open' X close (c # cs) =
     (case match_here open' X close (c # cs) of
        Some m \<Rightarrow> Some m
      | None \<Rightarrow> regex_search open' X close cs)"

text \<open>\<^verbatim>\<open>s.match(/open(X*?)close/)\<close>: group 1 of the leftmost match, or null.\<close>

definition match_group :: "string \<Rightarrow> (char \<Rightarrow> bool) \<Rightarrow> string \<Rightarrow> string \<Rightarrow> string option" where
  "match_group open' X close s = map_option fst (regex_search open' X close s)"

text \<open>\<^verbatim>\<open>s.replace(/pat/g, rep)\<close> for a literal, non-empty \<^verbatim>\<open>pat\<close>.\<close>

fun replace_all :: "string \<Rightarrow> string \<Rightarrow> string \<Rightarrow> string" where
  "replace_all pat rep [] = []"
| "replace_all pat rep (c # cs) =
     (if starts_with pat (c # cs) then rep @ replace_all pat rep (drop (length pat - 1) cs)
      else c # replace_all pat rep cs)"

text \<open>\<^verbatim>\<open>s.includes(pat)\<close>.\<close>

fun string_includes :: "string \<Rightarrow> string \<Rightarrow> bool" where
  "string_includes pat [] = (pat = [])"
| "string_includes pat (c # cs) = (starts_with pat (c # cs) \<or> string_includes pat cs)"

text \<open>The local function \<^verbatim>\<open>decodeXml\<close>: five replacements, one after the other, \<^verbatim>\<open>&amp;\<close> first.\<close>

definition decodeXml :: "string \<Rightarrow> string" where
  "decodeXml str =
     replace_all ''&apos;'' [CHR 0x27]
       (replace_all ''&quot;'' [CHR 0x22]
         (replace_all ''&gt;'' ''>''
           (replace_all ''&lt;'' ''<''
             (replace_all ''&amp;'' ''&'' str))))"

subsection \<open>One response entry\<close>

record S3Object =
  key :: string
  name :: string
  size' :: js_number
  lastModified :: string
  isDirectory :: bool
  etag :: "string option"

record ListObjectsResult =
  objects :: "S3Object list"
  prefixes :: "string list"
  isTruncated :: bool
  nextContinuationToken :: "string option"

text \<open>
  The body of the \<^verbatim>\<open>while\<close> loop, for the text \<^verbatim>\<open>response\<close> of one entry:
  \<^term>\<open>Inr None\<close> is a \<^verbatim>\<open>continue\<close>, \<^term>\<open>Inr (Some obj)\<close> is the object that is pushed, and
  \<^term>\<open>Inl e\<close> is the \<^verbatim>\<open>URIError\<close> of \<^verbatim>\<open>decodeURIComponent\<close>, which nothing in the parse
  catches.
\<close>

definition response_entry :: "platform \<Rightarrow> string \<Rightarrow> string \<Rightarrow> thrown + S3Object option" where
  "response_entry p fullPrefix response =
     (case match_group ''<D:href>'' dot ''</D:href>'' response of
        None \<Rightarrow> Inr None
      | Some hrefText \<Rightarrow>
          (let href = decodeXml hrefText;
               isDirectory' =
                 (case match_group ''<D:resourcetype>'' any_char ''</D:resourcetype>'' response of
                    None \<Rightarrow> False
                  | Some t \<Rightarrow> string_includes ''collection'' t);
               displayName =
                 (case match_group ''<D:displayname>'' dot ''</D:displayname>'' response of
                    None \<Rightarrow> []
                  | Some t \<Rightarrow> decodeXml t);
               size'' =
                 (case match_group ''<D:getcontentlength>'' dot ''</D:getcontentlength>'' response of
                    None \<Rightarrow> Num 0
                  | Some t \<Rightarrow> parseInt10 t);
               lastModified' =
                 (case match_group ''<D:getlastmodified>'' dot ''</D:getlastmodified>'' response of
                    None \<Rightarrow> []
                  | Some t \<Rightarrow> decodeXml t)
           in if displayName = [] then Inr None
              else
                (case decodeURIComponent p href of
                   Inl e \<Rightarrow> Inl e
                 | Inr decoded \<Rightarrow>
                     (let decodedHref = strip_leading_slash decoded;
                          expectedCurrent = strip_leading_slash fullPrefix
                      in if decodedHref = expectedCurrent \<or> decodedHref = expectedCurrent @ ''/''
                         then Inr None
                         else if isDirectory' then
                           Inr (Some \<lparr>key = displayName, name = displayName, size' = Num 0,
                                      lastModified = lastModified', isDirectory = True,
                                      etag = None\<rparr>)
                         else
                           Inr (Some \<lparr>key = displayName, name = displayName, size' = size'',
                                      lastModified = lastModified', isDirectory = False,
                                      etag = None\<rparr>)))))"

subsection \<open>The loop over the entries\<close>

lemma lazy_until_length:
  "lazy_until X close s = Some (capture, rest) \<Longrightarrow> length rest \<le> length s"
proof (induction s arbitrary: capture)
  case Nil
  then show ?case by (simp split: if_splits)
next
  case (Cons c cs)
  show ?case
  proof (cases "starts_with close (c # cs)")
    case True
    with Cons.prems show ?thesis by auto
  next
    case False
    with Cons.prems obtain capture' where "lazy_until X close cs = Some (capture', rest)"
      by (auto split: if_splits option.splits)
    from Cons.IH [OF this] show ?thesis by simp
  qed
qed

lemma match_here_length:
  "match_here open' X close s = Some (capture, rest) \<Longrightarrow> open' \<noteq> [] \<Longrightarrow> length rest < length s"
proof -
  assume m: "match_here open' X close s = Some (capture, rest)" and ne: "open' \<noteq> []"
  from m have sw: "starts_with open' s"
    and l: "lazy_until X close (drop (length open') s) = Some (capture, rest)"
    by (auto simp: match_here_def split: if_splits)
  from sw ne have "s \<noteq> []" by (cases open'; cases s) auto
  with ne have "length (drop (length open') s) < length s" by simp
  with lazy_until_length [OF l] show ?thesis by simp
qed

lemma regex_search_length:
  "regex_search open' X close s = Some (capture, rest) \<Longrightarrow> open' \<noteq> [] \<Longrightarrow> length rest < length s"
proof (induction s)
  case Nil
  then show ?case using match_here_length [of open' X close "[]" capture rest] by simp
next
  case (Cons c cs)
  show ?case
  proof (cases "match_here open' X close (c # cs)")
    case None
    with Cons show ?thesis by auto
  next
    case (Some m)
    with Cons.prems match_here_length [of open' X close "c # cs" capture rest]
    show ?thesis by auto
  qed
qed

text \<open>
  \<^verbatim>\<open>while ((match = responseRegex.exec(xml)) !== null)\<close> with the global pattern
  \<^verbatim>\<open>/<D:response>([\s\S]*?)<\/D:response>/g\<close>: each round searches the input after the
  previous match. The arrays \<^verbatim>\<open>objects\<close> and \<^verbatim>\<open>prefixes\<close> are the accumulators.
\<close>

function response_loop ::
  "platform \<Rightarrow> string \<Rightarrow> string \<Rightarrow> S3Object list \<Rightarrow> string list
     \<Rightarrow> thrown + (S3Object list \<times> string list)" where
  "response_loop p fullPrefix xml objs prefs =
     (case regex_search ''<D:response>'' any_char ''</D:response>'' xml of
        None \<Rightarrow> Inr (objs, prefs)
      | Some (response, rest) \<Rightarrow>
          (case response_entry p fullPrefix response of
             Inl e \<Rightarrow> Inl e
           | Inr None \<Rightarrow> response_loop p fullPrefix rest objs prefs
           | Inr (Some obj) \<Rightarrow>
               response_loop p fullPrefix rest (objs @ [obj])
                 (if isDirectory obj then prefs @ [key obj] else prefs)))"
  by pat_completeness auto
termination
proof (relation "measure (\<lambda>(p, fullPrefix, xml, objs, prefs). length xml)")
  show "wf (measure (\<lambda>(p, fullPrefix, xml, objs, prefs). length xml))" by simp
qed (auto dest: regex_search_length)

declare response_loop.simps [simp del]

subsection \<open>The sort and the result\<close>

text \<open>
  \<^verbatim>\<open>Array.prototype.sort\<close> with a comparison function is a stable sort; it is modelled by
  the stable insertion sort (the language fixes the outcome when the comparison function
  is consistent, and all sorts agree then).
\<close>

fun insert_by :: "('a \<Rightarrow> 'a \<Rightarrow> int) \<Rightarrow> 'a \<Rightarrow> 'a list \<Rightarrow> 'a list" where
  "insert_by cmp x [] = [x]"
| "insert_by cmp x (y # ys) = (if cmp x y \<le> 0 then x # y # ys else y # insert_by cmp x ys)"

definition js_sort :: "('a \<Rightarrow> 'a \<Rightarrow> int) \<Rightarrow> 'a list \<Rightarrow> 'a list" where
  "js_sort cmp xs = foldr (insert_by cmp) xs []"

text \<open>The comparison function of the listing.\<close>

definition compare_objects :: "platform \<Rightarrow> S3Object \<Rightarrow> S3Object \<Rightarrow> int" where
  "compare_objects p a b =
     (if isDirectory a \<noteq> isDirectory b then (if isDirectory a then - 1 else 1)
      else localeCompare p (name a) (name b))"

text \<open>
  \<^verbatim>\<open>parsePropfindResponse\<close>. Its local \<^verbatim>\<open>basePath\<close> and its parameter \<^verbatim>\<open>displayPrefix\<close>
  are not used by the body.
\<close>

definition parsePropfindResponse ::
  "platform \<Rightarrow> WebdevConfig \<Rightarrow> string \<Rightarrow> string \<Rightarrow> string \<Rightarrow> thrown + ListObjectsResult" where
  "parsePropfindResponse p cfg xml fullPrefix displayPrefix =
     (let basePath' = config_basePath cfg in
      case response_loop p fullPrefix xml [] [] of
        Inl e \<Rightarrow> Inl e
      | Inr (objs, prefs) \<Rightarrow>
          Inr \<lparr>objects = js_sort (compare_objects p) objs, prefixes = prefs,
               isTruncated = False, nextContinuationToken = None\<rparr>)"

subsection \<open>The listing operation\<close>

definition propfind_body :: string where
  "propfind_body =
     ''<?xml version='' @ [CHR 0x22] @ ''1.0'' @ [CHR 0x22] @ '' encoding='' @ [CHR 0x22]
       @ ''utf-8'' @ [CHR 0x22] @ '' ?>'' @ [CHR 0x0A]
     @ ''<D:propfind xmlns:D='' @ [CHR 0x22] @ ''DAV:'' @ [CHR 0x22] @ ''>'' @ [CHR 0x0A]
     @ ''  <D:prop>'' @ [CHR 0x0A]
     @ ''    <D:displayname/>'' @ [CHR 0x0A]
     @ ''    <D:getcontentlength/>'' @ [CHR 0x0A]
     @ ''    <D:getlastmodified/>'' @ [CHR 0x0A]
     @ ''    <D:resourcetype/>'' @ [CHR 0x0A]
     @ ''  </D:prop>'' @ [CHR 0x0A]
     @ ''</D:propfind>''"

definition listObjects_prefix :: "string \<Rightarrow> string" where
  "listObjects_prefix prefix' =
     (if prefix' \<noteq> [] \<and> \<not> endsWith_slash prefix' then prefix' @ ''/'' else prefix')"

definition listObjects_request :: "WebdevConfig \<Rightarrow> string \<Rightarrow> http_request" where
  "listObjects_request cfg prefix' =
     (let normalizedPrefix = listObjects_prefix prefix';
          fullPrefix = getFullPath cfg normalizedPrefix;
          endpoint' = normalizeEndpoint (endpoint cfg);
          url' = (if fullPrefix \<noteq> [] then endpoint' @ ''/'' @ fullPrefix else endpoint')
      in \<lparr>http_method = ''PROPFIND'', url = url',
          headers = [(''Authorization'', getBasicAuth cfg), (''Content-Type'', ''application/xml''),
                     (''Depth'', ''1'')],
          body = Some propfind_body\<rparr>)"

text \<open>The parameters \<^verbatim>\<open>delimiter\<close>, \<^verbatim>\<open>maxKeys\<close> and \<^verbatim>\<open>continuationToken\<close> are not used by the body.\<close>

definition listObjects :: "platform \<Rightarrow> WebdevConfig \<Rightarrow> string \<Rightarrow> thrown + ListObjectsResult" where
  "listObjects p cfg prefix' =
     (let normalizedPrefix = listObjects_prefix prefix';
          fullPrefix = getFullPath cfg normalizedPrefix
      in catch_as ''listObjects''
           (case fetch p (listObjects_request cfg prefix') of
              Rejects e \<Rightarrow> Inl e
            | Resolves response \<Rightarrow>
                if \<not> ok response \<and> status response \<noteq> 207 then
                  Inl (Error (''WebDAV PROPFIND failed: '' @ toString_nat (status response)))
                else
                  (case body_text response of
                     Inl e \<Rightarrow> Inl e
                   | Inr xml \<Rightarrow> parsePropfindResponse p cfg xml fullPrefix normalizedPrefix)))"

text \<open>
  A failure that names its operation: an \<^verbatim>\<open>Error\<close> whose message starts with
  \<^verbatim>\<open>WebDAV <operation> failed: \<close>.
\<close>

definition names_operation :: "string \<Rightarrow> thrown + 'a \<Rightarrow> bool" where
  "names_operation operation outcome =
     (case outcome of
        Inl (Error m) \<Rightarrow> starts_with (''WebDAV '' @ operation @ '' failed: '') m
      | Inl NonError \<Rightarrow> False
      | Inr v \<Rightarrow> False)"

section \<open>Notions used in the statements\<close>

text \<open>
  The entry texts that the loop of \<^verbatim>\<open>parsePropfindResponse\<close> visits, in order: group 1 of
  the successive matches of the global pattern.
\<close>

function responses :: "string \<Rightarrow> string list" where
  "responses xml =
     (case regex_search ''<D:response>'' any_char ''</D:response>'' xml of
        None \<Rightarrow> []
      | Some (response, rest) \<Rightarrow> response # responses rest)"
  by pat_completeness auto
termination
proof (relation "measure length")
  show "wf (measure (length :: string \<Rightarrow> nat))" by simp
qed (auto dest: regex_search_length)

declare responses.simps [simp del]

text \<open>The loop body applied to a list of entry texts, stopping at the first thrown value.\<close>

fun collect_entries :: "platform \<Rightarrow> string \<Rightarrow> string list \<Rightarrow> thrown + S3Object list" where
  "collect_entries p fullPrefix [] = Inr []"
| "collect_entries p fullPrefix (b # bs) =
     (case response_entry p fullPrefix b of
        Inl e \<Rightarrow> Inl e
      | Inr None \<Rightarrow> collect_entries p fullPrefix bs
      | Inr (Some obj) \<Rightarrow>
          (case collect_entries p fullPrefix bs of
             Inl e \<Rightarrow> Inl e
           | Inr objs \<Rightarrow> Inr (obj # objs)))"

text \<open>What one entry text contributes to the objects: nothing, or the object it pushes.\<close>

definition entry_objects :: "platform \<Rightarrow> string \<Rightarrow> string \<Rightarrow> S3Object list" where
  "entry_objects p fullPrefix b =
     (case response_entry p fullPrefix b of
        Inl e \<Rightarrow> []
      | Inr None \<Rightarrow> []
      | Inr (Some obj) \<Rightarrow> [obj])"

text \<open>Whether handling an entry text throws.\<close>

definition entry_throws :: "platform \<Rightarrow> string \<Rightarrow> string \<Rightarrow> bool" where
  "entry_throws p fullPrefix b =
     (case response_entry p fullPrefix b of Inl e \<Rightarrow> True | Inr v \<Rightarrow> False)"





text \<open>
  A platform for the concrete instances. Its transport gives the same answer to every
  request. Its \<^verbatim>\<open>decodeURIComponent\<close> returns a string without \<^verbatim>\<open>%\<close> unchanged, as the
  function of the language does, and throws on every other string. The instances use
  strings without \<^verbatim>\<open>%\<close> and the string \<^verbatim>\<open>/docs/%\<close>, on which the function of the
  language throws too: its \<^verbatim>\<open>%\<close> is not followed by two hexadecimal digits. Its
  \<^verbatim>\<open>localeCompare\<close> orders strings by their code units.
\<close>

fun codeunit_compare :: "string \<Rightarrow> string \<Rightarrow> int" where
  "codeunit_compare [] [] = 0"
| "codeunit_compare [] (b # bs) = - 1"
| "codeunit_compare (a # as) [] = 1"
| "codeunit_compare (a # as) (b # bs) =
     (if (of_char a :: nat) < of_char b then - 1
      else if (of_char b :: nat) < of_char a then 1
      else codeunit_compare as bs)"

definition demo_platform :: "fetch_result \<Rightarrow> platform" where
  "demo_platform answer =
     \<lparr>fetch = (\<lambda>request. answer),
      decodeURIComponent =
        (\<lambda>s. if CHR ''%'' \<in> set s then Inl (Error ''URI malformed'') else Inr s),
      localeCompare = codeunit_compare\<rparr>"

text \<open>
  A platform whose transport answers one request only and rejects every other one; the
  rest is as in \<^term>\<open>demo_platform\<close>.
\<close>

definition demo_platform_for :: "http_request \<Rightarrow> fetch_result \<Rightarrow> platform" where
  "demo_platform_for expected answer =
     \<lparr>fetch = (\<lambda>request. if request = expected then answer else Rejects NonError),
      decodeURIComponent =
        (\<lambda>s. if CHR ''%'' \<in> set s then Inl (Error ''URI malformed'') else Inr s),
      localeCompare = codeunit_compare\<rparr>"

definition demo_config :: WebdevConfig where
  "demo_config =
     \<lparr>endpoint = ''https://dav.example'', username = ''user'', password = ''pass'',
      basePath = None\<rparr>"

definition demo_response :: "nat \<Rightarrow> string \<Rightarrow> fetch_result" where
  "demo_response code text' =
     Resolves \<lparr>status = code, headers_get = (\<lambda>h. None), body_text = Inr text'\<rparr>"

text \<open>The vocabulary of the path properties: a doubled separator, a leading separator.\<close>

fun doubled_separator :: "string \<Rightarrow> bool" where
  "doubled_separator (a # b # r) = ((a = CHR ''/'' \<and> b = CHR ''/'') \<or> doubled_separator (b # r))"
| "doubled_separator [a] = False"
| "doubled_separator [] = False"

definition leading_separator :: "string \<Rightarrow> bool" where
  "leading_separator s = (case s of [] \<Rightarrow> False | c # cs \<Rightarrow> c = CHR ''/'')"

section \<open>Properties of the path resolver\<close>

subsection \<open>Facts about the stripping functions\<close>

lemma leading_separator_simps [simp]:
  "leading_separator [] = False"
  "leading_separator (c # cs) = (c = CHR ''/'')"
  by (simp_all add: leading_separator_def)

lemma doubled_separator_Cons:
  "doubled_separator (c # s) = ((c = CHR ''/'' \<and> leading_separator s) \<or> doubled_separator s)"
  by (cases s) (auto simp: leading_separator_def)

lemma doubled_separator_append:
  "doubled_separator (xs @ ys) =
     (doubled_separator xs \<or> doubled_separator ys \<or> (endsWith_slash xs \<and> leading_separator ys))"
proof (induction xs)
  case Nil
  show ?case by (simp add: endsWith_slash_def)
next
  case (Cons x xs)
  show ?case
  proof (cases xs)
    case Nil
    then show ?thesis
      by (auto simp: doubled_separator_Cons endsWith_slash_def)
  next
    case (Cons y zs)
    with Cons.IH show ?thesis
      by (auto simp: doubled_separator_Cons endsWith_slash_def leading_separator_def)
  qed
qed

lemma strip_leading_slash_clean:
  "\<not> doubled_separator s \<Longrightarrow>
     \<not> doubled_separator (strip_leading_slash s) \<and> \<not> leading_separator (strip_leading_slash s)"
  by (cases s) (auto simp: doubled_separator_Cons leading_separator_def)

lemma butlast_clean:
  "\<not> doubled_separator s \<Longrightarrow> \<not> doubled_separator (butlast s)"
proof (induction s)
  case Nil
  show ?case by simp
next
  case (Cons c s)
  then show ?case
    by (cases s) (auto simp: doubled_separator_Cons leading_separator_def)
qed

lemma butlast_no_trailing:
  "\<not> doubled_separator s \<Longrightarrow> endsWith_slash s \<Longrightarrow> \<not> endsWith_slash (butlast s)"
proof (induction s)
  case Nil
  then show ?case by (simp add: endsWith_slash_def)
next
  case (Cons c s)
  show ?case
  proof (cases s)
    case Nil
    then show ?thesis by (simp add: endsWith_slash_def)
  next
    case (Cons d t)
    with Cons.prems Cons.IH show ?thesis
      by (cases t) (auto simp: doubled_separator_Cons leading_separator_def endsWith_slash_def)
  qed
qed

lemma strip_trailing_slash_clean:
  "\<not> doubled_separator s \<Longrightarrow>
     \<not> doubled_separator (strip_trailing_slash s) \<and> \<not> endsWith_slash (strip_trailing_slash s)"
  using butlast_clean [of s] butlast_no_trailing [of s]
  by (auto simp: strip_trailing_slash_def endsWith_slash_def)

lemma strip_trailing_slash_leading:
  "\<not> leading_separator s \<Longrightarrow> \<not> leading_separator (strip_trailing_slash s)"
  by (cases s) (auto simp: strip_trailing_slash_def leading_separator_def split: list.splits)

lemma strip_both_slashes_clean:
  assumes "\<not> doubled_separator b"
  shows "\<not> doubled_separator (strip_both_slashes b)"
    and "\<not> leading_separator (strip_both_slashes b)"
    and "\<not> endsWith_slash (strip_both_slashes b)"
  using strip_leading_slash_clean [OF assms]
        strip_trailing_slash_clean [of "strip_leading_slash b"]
        strip_trailing_slash_leading [of "strip_leading_slash b"]
  by (auto simp: strip_both_slashes_def)

lemma leading_separator_append:
  "xs \<noteq> [] \<Longrightarrow> leading_separator (xs @ ys) = leading_separator xs"
  by (cases xs) (auto simp: leading_separator_def)

lemma strip_leading_slash_fixed:
  "(strip_leading_slash s = s) = (\<not> leading_separator s)"
proof (cases s)
  case Nil
  then show ?thesis by (simp add: leading_separator_def)
next
  case (Cons c cs)
  have "cs \<noteq> c # cs" by simp
  with Cons show ?thesis by (auto simp: leading_separator_def)
qed

lemma length_strip_leading_slash:
  "length s \<le> Suc (length (strip_leading_slash s))"
  by (cases s) auto


subsection \<open>The path join\<close>

text \<open>
  C2, as the specification states it: for all base paths and keys the resolved path has
  no doubled separator and no leading separator. The resolver removes one separator, not
  a run of them: with base path \<^verbatim>\<open>a\<close> the key \<^verbatim>\<open>//b\<close> resolves to \<^verbatim>\<open>a//b\<close>.
\<close>

theorem getFullPath_doubled_counterexample:
  "doubled_separator
     (getFullPath \<lparr>endpoint = ''http://h'', username = ''u'', password = ''p'',
                   basePath = Some ''a''\<rparr> ''//b'')"
  by (simp add: getFullPath_def config_basePath_def strip_both_slashes_def
      strip_trailing_slash_def)

text \<open>
  C2, amended: when neither the configured base path nor the key has a doubled separator,
  the resolved path has no doubled separator and no leading separator; it is the
  stripped key when the stripped base path is empty, and otherwise the stripped base
  path, one separator and the stripped key, where the stripped base path does not end
  with a separator and the stripped key does not start with one.
\<close>

theorem getFullPath_join_invariant:
  assumes base: "case basePath cfg of None \<Rightarrow> True | Some b \<Rightarrow> \<not> doubled_separator b"
    and path: "\<not> doubled_separator path"
  shows "\<not> doubled_separator (getFullPath cfg path)
       \<and> \<not> leading_separator (getFullPath cfg path)
       \<and> getFullPath cfg path =
           (if config_basePath cfg = [] then strip_leading_slash path
            else config_basePath cfg @ ''/'' @ strip_leading_slash path)
       \<and> \<not> endsWith_slash (config_basePath cfg)
       \<and> \<not> leading_separator (strip_leading_slash path)"
proof -
  let ?b = "config_basePath cfg" and ?k = "strip_leading_slash path"
  have k: "\<not> doubled_separator ?k" "\<not> leading_separator ?k"
    using strip_leading_slash_clean [OF path] by simp_all
  have b: "\<not> doubled_separator ?b \<and> \<not> leading_separator ?b \<and> \<not> endsWith_slash ?b"
  proof (cases "basePath cfg")
    case None
    then show ?thesis by (simp add: config_basePath_def endsWith_slash_def)
  next
    case (Some p)
    with base have "\<not> doubled_separator p" by simp
    from strip_both_slashes_clean [OF this] Some show ?thesis
      by (simp add: config_basePath_def)
  qed
  have sep: "\<not> doubled_separator (''/'' @ ?k)"
    using k by (simp add: doubled_separator_Cons)
  have join: "?b \<noteq> [] \<Longrightarrow> \<not> doubled_separator (?b @ ''/'' @ ?k)"
    using b sep by (simp only: doubled_separator_append) simp
  have lead: "?b \<noteq> [] \<Longrightarrow> \<not> leading_separator (?b @ ''/'' @ ?k)"
    using b by (simp add: leading_separator_append)
  show ?thesis
    using k b join lead by (simp add: getFullPath_def Let_def)
qed

theorem getFullPath_join_invariant_witness:
  "\<not> doubled_separator
       (getFullPath \<lparr>endpoint = ''http://h'', username = ''u'', password = ''p'',
                     basePath = Some ''/dav/''\<rparr> ''/docs/a.txt'')
   \<and> getFullPath \<lparr>endpoint = ''http://h'', username = ''u'', password = ''p'',
                   basePath = Some ''/dav/''\<rparr> ''/docs/a.txt'' = ''dav/docs/a.txt''"
  using getFullPath_join_invariant
          [of "\<lparr>endpoint = ''http://h'', username = ''u'', password = ''p'',
                basePath = Some ''/dav/''\<rparr>" "''/docs/a.txt''"]
  by (simp add: config_basePath_def strip_both_slashes_def strip_trailing_slash_def)

text \<open>
  C3, as the specification states it: resolving a resolved path gives the same path.
  With base path \<^verbatim>\<open>a\<close> the key \<^verbatim>\<open>b\<close> resolves to \<^verbatim>\<open>a/b\<close>, and that resolves to
  \<^verbatim>\<open>a/a/b\<close>.
\<close>

theorem getFullPath_idempotent_counterexample:
  "getFullPath \<lparr>endpoint = ''http://h'', username = ''u'', password = ''p'',
                 basePath = Some ''a''\<rparr>
     (getFullPath \<lparr>endpoint = ''http://h'', username = ''u'', password = ''p'',
                    basePath = Some ''a''\<rparr> ''b'')
   \<noteq> getFullPath \<lparr>endpoint = ''http://h'', username = ''u'', password = ''p'',
                    basePath = Some ''a''\<rparr> ''b''"
  by (simp add: getFullPath_def config_basePath_def strip_both_slashes_def
      strip_trailing_slash_def)

text \<open>
  C3, amended: resolution is a total function (it has no error case), and resolving a
  resolved path gives the same path exactly when the stripped base path is empty and
  the key does not start with two separators; with a non-empty base path the second
  resolution puts the base path in front once more.
\<close>

theorem getFullPath_idempotent_iff:
  "(getFullPath cfg (getFullPath cfg path) = getFullPath cfg path) =
     (config_basePath cfg = [] \<and> \<not> leading_separator (strip_leading_slash path))"
proof (cases "config_basePath cfg = []")
  case True
  then show ?thesis
    by (simp add: getFullPath_def strip_leading_slash_fixed)
next
  case False
  let ?b = "config_basePath cfg"
  let ?r = "?b @ ''/'' @ strip_leading_slash path"
  have "strip_leading_slash ?r \<noteq> strip_leading_slash path"
  proof
    assume "strip_leading_slash ?r = strip_leading_slash path"
    then have "length (strip_leading_slash ?r) = length (strip_leading_slash path)"
      by simp
    with length_strip_leading_slash [of ?r]
    have "length ?b + length (strip_leading_slash path) \<le> length (strip_leading_slash path)"
      by simp
    with False show False by simp
  qed
  with False show ?thesis
    by (simp add: getFullPath_def Let_def)
qed

theorem getFullPath_idempotent_iff_witness:
  "getFullPath \<lparr>endpoint = ''http://h'', username = ''u'', password = ''p'',
                 basePath = Some ''/''\<rparr>
     (getFullPath \<lparr>endpoint = ''http://h'', username = ''u'', password = ''p'',
                    basePath = Some ''/''\<rparr> ''/docs/a.txt'')
   = getFullPath \<lparr>endpoint = ''http://h'', username = ''u'', password = ''p'',
                    basePath = Some ''/''\<rparr> ''/docs/a.txt''"
  using getFullPath_idempotent_iff
          [of "\<lparr>endpoint = ''http://h'', username = ''u'', password = ''p'',
                basePath = Some ''/''\<rparr>" "''/docs/a.txt''"]
  by (simp add: config_basePath_def strip_both_slashes_def strip_trailing_slash_def)


section \<open>Properties of the operations\<close>

lemma catch_as_simps [simp]:
  "catch_as n (Inr v) = Inr v"
  "catch_as n (Inl e) = Inl (Error (''WebDAV '' @ n @ '' failed: '' @ failure_message e))"
  by (simp_all add: catch_as_def)

lemma starts_with_append [simp]: "starts_with xs (xs @ ys)"
  by (induction xs) auto

lemma names_operation_Inr [simp]: "names_operation n (Inr v) = False"
  by (simp add: names_operation_def)

lemma deleteObject_outcome:
  "deleteObject p cfg k =
     (case fetch p (deleteObject_request cfg k) of
        Rejects e \<Rightarrow> Inl (Error (''WebDAV deleteObject failed: '' @ failure_message e))
      | Resolves r \<Rightarrow>
          if ok r \<or> status r = 204 then Inr ()
          else Inl (Error (''WebDAV deleteObject failed: '' @
                 (case body_text r of
                    Inl e \<Rightarrow> failure_message e
                  | Inr t \<Rightarrow> ''WebDAV DeleteObject failed: '' @ toString_nat (status r) @ '' '' @ t))))"
  by (simp add: deleteObject_def failure_message_def split: fetch_result.splits sum.splits)

lemma createFolder_outcome:
  "createFolder p cfg k =
     (case fetch p (createFolder_request cfg k) of
        Rejects e \<Rightarrow> Inl (Error (''WebDAV createFolder failed: '' @ failure_message e))
      | Resolves r \<Rightarrow>
          if ok r \<or> status r = 201 then Inr ()
          else Inl (Error (''WebDAV createFolder failed: '' @
                 (case body_text r of
                    Inl e \<Rightarrow> failure_message e
                  | Inr t \<Rightarrow> ''WebDAV MKCOL failed: '' @ toString_nat (status r) @ '' '' @ t))))"
  by (simp add: createFolder_def failure_message_def split: fetch_result.splits sum.splits)

lemma copyObject_outcome:
  "copyObject p cfg s d =
     (case fetch p (copyObject_request cfg s d) of
        Rejects e \<Rightarrow> Inl (Error (''WebDAV copyObject failed: '' @ failure_message e))
      | Resolves r \<Rightarrow>
          if ok r \<or> status r = 201 \<or> status r = 204 then Inr ()
          else Inl (Error (''WebDAV copyObject failed: '' @
                 (case body_text r of
                    Inl e \<Rightarrow> failure_message e
                  | Inr t \<Rightarrow> ''WebDAV COPY failed: '' @ toString_nat (status r) @ '' '' @ t))))"
  by (simp add: copyObject_def failure_message_def split: fetch_result.splits sum.splits)

text \<open>
  C1: the request of \<^verbatim>\<open>copyObject\<close> is the COPY request to the URL resolved from the
  destination key, with this same URL as its Destination header, and the outcome of
  \<^verbatim>\<open>copyObject\<close> is read off the answer of the transport to exactly this request. Neither
  the request nor the outcome depends on the source key, and this is the only request:
  the outcome is the same on a transport that gives the answer to this request to every
  request.
\<close>

theorem copyObject_request_ignores_source:
  "copyObject_request cfg sourceKey destKey
     = \<lparr>http_method = ''COPY'',
        url = normalizeEndpoint (endpoint cfg) @ ''/'' @ getFullPath cfg destKey,
        headers = [(''Authorization'', getBasicAuth cfg),
                   (''Destination'', normalizeEndpoint (endpoint cfg) @ ''/'' @ getFullPath cfg destKey),
                   (''Overwrite'', ''F'')],
        body = None\<rparr>
   \<and> copyObject p cfg sourceKey destKey
     = (case fetch p
              \<lparr>http_method = ''COPY'',
               url = normalizeEndpoint (endpoint cfg) @ ''/'' @ getFullPath cfg destKey,
               headers = [(''Authorization'', getBasicAuth cfg),
                          (''Destination'',
                           normalizeEndpoint (endpoint cfg) @ ''/'' @ getFullPath cfg destKey),
                          (''Overwrite'', ''F'')],
               body = None\<rparr> of
          Rejects e \<Rightarrow> Inl (Error (''WebDAV copyObject failed: '' @ failure_message e))
        | Resolves r \<Rightarrow>
            if ok r \<or> status r = 201 \<or> status r = 204 then Inr ()
            else Inl (Error (''WebDAV copyObject failed: '' @
                   (case body_text r of
                      Inl e \<Rightarrow> failure_message e
                    | Inr t \<Rightarrow> ''WebDAV COPY failed: '' @ toString_nat (status r) @ '' '' @ t))))
   \<and> http_method (copyObject_request cfg sourceKey destKey) = ''COPY''
   \<and> url (copyObject_request cfg sourceKey destKey)
       = normalizeEndpoint (endpoint cfg) @ ''/'' @ getFullPath cfg destKey
   \<and> map_of (headers (copyObject_request cfg sourceKey destKey)) ''Destination''
       = Some (url (copyObject_request cfg sourceKey destKey))
   \<and> copyObject_request cfg sourceKey destKey = copyObject_request cfg sourceKey' destKey
   \<and> copyObject p cfg sourceKey destKey = copyObject p cfg sourceKey' destKey
   \<and> copyObject p cfg sourceKey destKey
       = copyObject
           (p\<lparr>fetch := (\<lambda>request. fetch p (copyObject_request cfg sourceKey destKey))\<rparr>)
           cfg sourceKey destKey"
proof -
  have req: "copyObject_request cfg s destKey
     = \<lparr>http_method = ''COPY'',
        url = normalizeEndpoint (endpoint cfg) @ ''/'' @ getFullPath cfg destKey,
        headers = [(''Authorization'', getBasicAuth cfg),
                   (''Destination'', normalizeEndpoint (endpoint cfg) @ ''/'' @ getFullPath cfg destKey),
                   (''Overwrite'', ''F'')],
        body = None\<rparr>" for s
    by (simp add: copyObject_request_def Let_def)
  show ?thesis
    unfolding copyObject_outcome req by simp
qed

text \<open>
  An instance of C1, on transports that answer one request only and reject every other
  one: \<^verbatim>\<open>copyObject("a.txt", "b.txt")\<close> succeeds when that request is the COPY request to
  the URL of \<^verbatim>\<open>b.txt\<close>, and fails when it is the COPY request to the URL of \<^verbatim>\<open>a.txt\<close>
  with the URL of \<^verbatim>\<open>b.txt\<close> as Destination.
\<close>

theorem copyObject_request_ignores_source_witness:
  "copyObject
     (demo_platform_for
        \<lparr>http_method = ''COPY'', url = ''https://dav.example/b.txt'',
         headers = [(''Authorization'', ''Basic dXNlcjpwYXNz''),
                    (''Destination'', ''https://dav.example/b.txt''), (''Overwrite'', ''F'')],
         body = None\<rparr>
        (demo_response 201 []))
     demo_config ''a.txt'' ''b.txt'' = Inr ()
   \<and> copyObject
     (demo_platform_for
        \<lparr>http_method = ''COPY'', url = ''https://dav.example/a.txt'',
         headers = [(''Authorization'', ''Basic dXNlcjpwYXNz''),
                    (''Destination'', ''https://dav.example/b.txt''), (''Overwrite'', ''F'')],
         body = None\<rparr>
        (demo_response 201 []))
     demo_config ''a.txt'' ''b.txt'' = Inl (Error ''WebDAV copyObject failed: Unknown error'')"
  using copyObject_request_ignores_source
          [of demo_config "''a.txt''" "''b.txt''"
              "demo_platform_for
                 \<lparr>http_method = ''COPY'', url = ''https://dav.example/b.txt'',
                  headers = [(''Authorization'', ''Basic dXNlcjpwYXNz''),
                             (''Destination'', ''https://dav.example/b.txt''), (''Overwrite'', ''F'')],
                  body = None\<rparr>
                 (demo_response 201 [])"]
        copyObject_request_ignores_source
          [of demo_config "''a.txt''" "''b.txt''"
              "demo_platform_for
                 \<lparr>http_method = ''COPY'', url = ''https://dav.example/a.txt'',
                  headers = [(''Authorization'', ''Basic dXNlcjpwYXNz''),
                             (''Destination'', ''https://dav.example/b.txt''), (''Overwrite'', ''F'')],
                  body = None\<rparr>
                 (demo_response 201 [])"]
  by (simp add: demo_platform_for_def demo_response_def demo_config_def ok_def
      failure_message_def getFullPath_def config_basePath_def normalizeEndpoint_def
      strip_trailing_slash_def getBasicAuth_def btoa_def base64_digit_def)

text \<open>
  C10: with the answer of the transport to the request of the operation,
  \<^verbatim>\<open>deleteObject\<close> succeeds exactly when the status is in the ok range or 204,
  \<^verbatim>\<open>createFolder\<close> exactly when it is in the ok range or 201, \<^verbatim>\<open>copyObject\<close> exactly when
  it is in the ok range, 201 or 204. In every other case, a rejected request included,
  the outcome is an \<^verbatim>\<open>Error\<close> whose message names the operation; for a refused status
  whose body was read the message carries the status and the body text.
\<close>

theorem status_mapping_remove_makeFolder_copy:
  "(case fetch p (deleteObject_request cfg k) of
      Rejects e \<Rightarrow>
        deleteObject p cfg k = Inl (Error (''WebDAV deleteObject failed: '' @ failure_message e))
    | Resolves r \<Rightarrow>
        (deleteObject p cfg k = Inr ()) = (ok r \<or> status r = 204)
        \<and> names_operation ''deleteObject'' (deleteObject p cfg k) = (\<not> (ok r \<or> status r = 204))
        \<and> (\<forall>t. \<not> (ok r \<or> status r = 204) \<and> body_text r = Inr t \<longrightarrow>
               deleteObject p cfg k =
                 Inl (Error (''WebDAV deleteObject failed: WebDAV DeleteObject failed: ''
                             @ toString_nat (status r) @ '' '' @ t))))
   \<and> (case fetch p (createFolder_request cfg k) of
      Rejects e \<Rightarrow>
        createFolder p cfg k = Inl (Error (''WebDAV createFolder failed: '' @ failure_message e))
    | Resolves r \<Rightarrow>
        (createFolder p cfg k = Inr ()) = (ok r \<or> status r = 201)
        \<and> names_operation ''createFolder'' (createFolder p cfg k) = (\<not> (ok r \<or> status r = 201))
        \<and> (\<forall>t. \<not> (ok r \<or> status r = 201) \<and> body_text r = Inr t \<longrightarrow>
               createFolder p cfg k =
                 Inl (Error (''WebDAV createFolder failed: WebDAV MKCOL failed: ''
                             @ toString_nat (status r) @ '' '' @ t))))
   \<and> (case fetch p (copyObject_request cfg s d) of
      Rejects e \<Rightarrow>
        copyObject p cfg s d = Inl (Error (''WebDAV copyObject failed: '' @ failure_message e))
    | Resolves r \<Rightarrow>
        (copyObject p cfg s d = Inr ()) = (ok r \<or> status r = 201 \<or> status r = 204)
        \<and> names_operation ''copyObject'' (copyObject p cfg s d)
            = (\<not> (ok r \<or> status r = 201 \<or> status r = 204))
        \<and> (\<forall>t. \<not> (ok r \<or> status r = 201 \<or> status r = 204) \<and> body_text r = Inr t \<longrightarrow>
               copyObject p cfg s d =
                 Inl (Error (''WebDAV copyObject failed: WebDAV COPY failed: ''
                             @ toString_nat (status r) @ '' '' @ t))))"
proof (intro conjI)
  show "case fetch p (deleteObject_request cfg k) of
      Rejects e \<Rightarrow>
        deleteObject p cfg k = Inl (Error (''WebDAV deleteObject failed: '' @ failure_message e))
    | Resolves r \<Rightarrow>
        (deleteObject p cfg k = Inr ()) = (ok r \<or> status r = 204)
        \<and> names_operation ''deleteObject'' (deleteObject p cfg k) = (\<not> (ok r \<or> status r = 204))
        \<and> (\<forall>t. \<not> (ok r \<or> status r = 204) \<and> body_text r = Inr t \<longrightarrow>
               deleteObject p cfg k =
                 Inl (Error (''WebDAV deleteObject failed: WebDAV DeleteObject failed: ''
                             @ toString_nat (status r) @ '' '' @ t)))"
    by (simp add: deleteObject_outcome names_operation_def split: fetch_result.splits)
  show "case fetch p (createFolder_request cfg k) of
      Rejects e \<Rightarrow>
        createFolder p cfg k = Inl (Error (''WebDAV createFolder failed: '' @ failure_message e))
    | Resolves r \<Rightarrow>
        (createFolder p cfg k = Inr ()) = (ok r \<or> status r = 201)
        \<and> names_operation ''createFolder'' (createFolder p cfg k) = (\<not> (ok r \<or> status r = 201))
        \<and> (\<forall>t. \<not> (ok r \<or> status r = 201) \<and> body_text r = Inr t \<longrightarrow>
               createFolder p cfg k =
                 Inl (Error (''WebDAV createFolder failed: WebDAV MKCOL failed: ''
                             @ toString_nat (status r) @ '' '' @ t)))"
    by (simp add: createFolder_outcome names_operation_def split: fetch_result.splits)
  show "case fetch p (copyObject_request cfg s d) of
      Rejects e \<Rightarrow>
        copyObject p cfg s d = Inl (Error (''WebDAV copyObject failed: '' @ failure_message e))
    | Resolves r \<Rightarrow>
        (copyObject p cfg s d = Inr ()) = (ok r \<or> status r = 201 \<or> status r = 204)
        \<and> names_operation ''copyObject'' (copyObject p cfg s d)
            = (\<not> (ok r \<or> status r = 201 \<or> status r = 204))
        \<and> (\<forall>t. \<not> (ok r \<or> status r = 201 \<or> status r = 204) \<and> body_text r = Inr t \<longrightarrow>
               copyObject p cfg s d =
                 Inl (Error (''WebDAV copyObject failed: WebDAV COPY failed: ''
                             @ toString_nat (status r) @ '' '' @ t)))"
    by (simp add: copyObject_outcome names_operation_def split: fetch_result.splits)
qed

text \<open>An instance of C10: the three operations against a backend that answers 404.\<close>

theorem status_mapping_remove_makeFolder_copy_witness:
  "deleteObject (demo_platform (demo_response 404 ''gone'')) demo_config ''a.txt''
     = Inl (Error ''WebDAV deleteObject failed: WebDAV DeleteObject failed: 404 gone'')
   \<and> createFolder (demo_platform (demo_response 404 ''gone'')) demo_config ''a.txt''
     = Inl (Error ''WebDAV createFolder failed: WebDAV MKCOL failed: 404 gone'')
   \<and> copyObject (demo_platform (demo_response 404 ''gone'')) demo_config ''a.txt'' ''b.txt''
     = Inl (Error ''WebDAV copyObject failed: WebDAV COPY failed: 404 gone'')"
  using status_mapping_remove_makeFolder_copy
          [of "demo_platform (demo_response 404 ''gone'')" demo_config "''a.txt''"
              "''a.txt''" "''b.txt''"]
  by (simp add: demo_platform_def demo_response_def ok_def toString_nat.simps)

text \<open>
  C9: when the transport answers the HEAD request with a response, \<^verbatim>\<open>headObject\<close>
  returns the absent result for status 404, the metadata record for a status in the ok
  range, and fails for every other status; so 404 is the only status outside the ok
  range for which it returns.
\<close>

theorem headObject_status_mapping:
  assumes "fetch p (headObject_request cfg k) = Resolves r"
  shows "(status r = 404 \<longrightarrow> headObject p cfg k = Inr None)
       \<and> (ok r \<longrightarrow>
            headObject p cfg k =
              Inr (Some \<lparr>contentLength = parseInt10 (or_else (headers_get r ''content-length'') ''0''),
                         contentType =
                           or_else (headers_get r ''content-type'') ''application/octet-stream'',
                         head_lastModified = or_else (headers_get r ''last-modified'') []\<rparr>))
       \<and> (\<not> ok r \<and> status r \<noteq> 404 \<longrightarrow>
            headObject p cfg k =
              Inl (Error (''WebDAV headObject failed: WebDAV HeadObject failed: ''
                          @ toString_nat (status r))))
       \<and> ((\<exists>v. headObject p cfg k = Inr v) = (ok r \<or> status r = 404))"
  using assms by (auto simp: headObject_def ok_def failure_message_def)

text \<open>
  Instances of C9: \<^verbatim>\<open>headObject\<close> against backends that answer 404, 200 and 500 (without
  headers).
\<close>

theorem headObject_status_mapping_witness:
  "headObject (demo_platform (demo_response 404 [])) demo_config ''missing.txt'' = Inr None
   \<and> headObject (demo_platform (demo_response 200 [])) demo_config ''a.txt''
       = Inr (Some \<lparr>contentLength = Num 0, contentType = ''application/octet-stream'',
                    head_lastModified = []\<rparr>)
   \<and> headObject (demo_platform (demo_response 500 [])) demo_config ''a.txt''
       = Inl (Error ''WebDAV headObject failed: WebDAV HeadObject failed: 500'')"
  using headObject_status_mapping
          [of "demo_platform (demo_response 404 [])" demo_config "''missing.txt''"
              "\<lparr>status = 404, headers_get = (\<lambda>h. None), body_text = Inr []\<rparr>"]
        headObject_status_mapping
          [of "demo_platform (demo_response 200 [])" demo_config "''a.txt''"
              "\<lparr>status = 200, headers_get = (\<lambda>h. None), body_text = Inr []\<rparr>"]
        headObject_status_mapping
          [of "demo_platform (demo_response 500 [])" demo_config "''a.txt''"
              "\<lparr>status = 500, headers_get = (\<lambda>h. None), body_text = Inr []\<rparr>"]
  by (simp add: demo_platform_def demo_response_def ok_def toString_nat.simps or_else_def
      parseInt10_def js_whitespace_def is_digit_def decimal_value_def digit_value_def
      to_Number_def round_to_double_def)

section \<open>The entity decoding\<close>



















section \<open>Properties of the listing parse\<close>

subsection \<open>The loop visits every entry\<close>

lemma response_loop_collect:
  "response_loop p fp xml objs prefs =
     (case collect_entries p fp (responses xml) of
        Inl e \<Rightarrow> Inl e
      | Inr new \<Rightarrow> Inr (objs @ new, prefs @ map key (filter isDirectory new)))"
proof (induction p fp xml objs prefs rule: response_loop.induct)
  case (1 p fp xml objs prefs)
  show ?case
  proof (cases "regex_search ''<D:response>'' any_char ''</D:response>'' xml")
    case None
    then show ?thesis
      by (simp add: response_loop.simps [of p fp xml] responses.simps [of xml])
  next
    case (Some m)
    obtain response rest where m: "m = (response, rest)" by (cases m)
    show ?thesis
    proof (cases "response_entry p fp response")
      case (Inl e)
      with Some m show ?thesis
        by (simp add: response_loop.simps [of p fp xml] responses.simps [of xml])
    next
      case (Inr v)
      show ?thesis
      proof (cases v)
        case None
        with "1.IH"(1) [OF Some m [symmetric] Inr] Some m Inr show ?thesis
          by (simp add: response_loop.simps [of p fp xml] responses.simps [of xml])
      next
        case (Some obj)
        with "1.IH"(2) [OF \<open>regex_search ''<D:response>'' any_char ''</D:response>'' xml = Some m\<close>
                          m [symmetric] Inr]
          \<open>regex_search ''<D:response>'' any_char ''</D:response>'' xml = Some m\<close> m Inr
        show ?thesis
          by (simp add: response_loop.simps [of p fp xml] responses.simps [of xml]
              split: sum.splits)
      qed
    qed
  qed
qed

lemma collect_entries_objects:
  "collect_entries p fp bs = Inr objs \<Longrightarrow> objs = concat (map (entry_objects p fp) bs)"
proof (induction bs arbitrary: objs)
  case Nil
  then show ?case by simp
next
  case (Cons b bs)
  then show ?case
    by (auto simp: entry_objects_def split: sum.splits option.splits)
qed

lemma collect_entries_returns:
  "(\<exists>objs. collect_entries p fp bs = Inr objs) = (\<forall>b\<in>set bs. \<not> entry_throws p fp b)"
proof (induction bs)
  case Nil
  show ?case by simp
next
  case (Cons b bs)
  then show ?case
    by (auto simp: entry_throws_def split: sum.splits option.splits)
qed

lemma parsePropfindResponse_objects:
  assumes "parsePropfindResponse p cfg xml fp dp = Inr r"
  shows "objects r = js_sort (compare_objects p) (concat (map (entry_objects p fp) (responses xml)))"
    and "prefixes r = map key (filter isDirectory (concat (map (entry_objects p fp) (responses xml))))"
    and "isTruncated r = False" and "nextContinuationToken r = None"
proof -
  from assms obtain objs where c: "collect_entries p fp (responses xml) = Inr objs"
    and r: "r = \<lparr>objects = js_sort (compare_objects p) objs,
                 prefixes = map key (filter isDirectory objs),
                 isTruncated = False, nextContinuationToken = None\<rparr>"
    by (auto simp: parsePropfindResponse_def response_loop_collect Let_def split: sum.splits)
  from collect_entries_objects [OF c] r
  show "objects r = js_sort (compare_objects p) (concat (map (entry_objects p fp) (responses xml)))"
    and "prefixes r = map key (filter isDirectory (concat (map (entry_objects p fp) (responses xml))))"
    and "isTruncated r = False" and "nextContinuationToken r = None"
    by simp_all
qed

lemma parsePropfindResponse_returns:
  "(\<exists>r. parsePropfindResponse p cfg xml fp dp = Inr r)
     = (\<forall>b\<in>set (responses xml). \<not> entry_throws p fp b)"
proof -
  have "(\<exists>r. parsePropfindResponse p cfg xml fp dp = Inr r)
          = (\<exists>objs. collect_entries p fp (responses xml) = Inr objs)"
    by (auto simp: parsePropfindResponse_def response_loop_collect Let_def split: sum.splits)
  then show ?thesis by (simp only: collect_entries_returns)
qed

subsection \<open>The sort\<close>

lemma mset_insert_by: "mset (insert_by cmp x ys) = add_mset x (mset ys)"
  by (induction ys) auto

lemma mset_js_sort: "mset (js_sort cmp xs) = mset xs"
  by (induction xs) (auto simp: js_sort_def mset_insert_by)

lemma set_insert_by: "set (insert_by cmp x ys) = insert x (set ys)"
  by (induction ys) auto


lemma sorted_insert_by:
  assumes total: "\<And>a b. cmp a b \<le> 0 \<or> cmp b a \<le> 0"
    and trans: "\<And>a b c. cmp a b \<le> 0 \<Longrightarrow> cmp b c \<le> 0 \<Longrightarrow> cmp a c \<le> 0"
  shows "sorted_wrt (\<lambda>a b. cmp a b \<le> 0) ys \<Longrightarrow> sorted_wrt (\<lambda>a b. cmp a b \<le> 0) (insert_by cmp x ys)"
proof (induction ys)
  case Nil
  show ?case by simp
next
  case (Cons y ys)
  show ?case
  proof (cases "cmp x y \<le> 0")
    case True
    with Cons.prems trans show ?thesis by auto
  next
    case False
    with total have "cmp y x \<le> 0" by blast
    with False Cons show ?thesis by (auto simp: set_insert_by)
  qed
qed

lemma sorted_js_sort:
  assumes total: "\<And>a b. cmp a b \<le> 0 \<or> cmp b a \<le> 0"
    and trans: "\<And>a b c. cmp a b \<le> 0 \<Longrightarrow> cmp b c \<le> 0 \<Longrightarrow> cmp a c \<le> 0"
  shows "sorted_wrt (\<lambda>a b. cmp a b \<le> 0) (js_sort cmp xs)"
proof (induction xs)
  case Nil
  show ?case by (simp add: js_sort_def)
next
  case (Cons x xs)
  from sorted_insert_by [of cmp "js_sort cmp xs" x, OF total trans Cons.IH]
  show ?case by (simp add: js_sort_def)
qed

lemma compare_objects_le:
  "(compare_objects p a b \<le> 0) =
     ((isDirectory b \<longrightarrow> isDirectory a)
      \<and> (isDirectory a = isDirectory b \<longrightarrow> localeCompare p (name a) (name b) \<le> 0))"
  by (auto simp: compare_objects_def)

subsection \<open>One entry\<close>

lemma regex_search_includes:
  "regex_search open' X close s = Some m \<Longrightarrow> string_includes open' s"
proof (induction s)
  case Nil
  then show ?case by (cases open') (auto simp: match_here_def split: if_splits)
next
  case (Cons c cs)
  then show ?case
    by (auto simp: match_here_def split: option.splits if_splits)
qed

lemma match_group_missing:
  "\<not> string_includes open' s \<Longrightarrow> match_group open' X close s = None"
  using regex_search_includes [of open' X close s]
  by (cases "regex_search open' X close s") (auto simp: match_group_def)

lemma response_entry_size:
  assumes "response_entry p fp b = Inr (Some obj)"
  shows "size' obj =
           (if isDirectory obj then Num 0
            else case match_group ''<D:getcontentlength>'' dot ''</D:getcontentlength>'' b of
                   None \<Rightarrow> Num 0
                 | Some t \<Rightarrow> parseInt10 t)"
  using assms
  by (auto simp: response_entry_def Let_def split: option.splits sum.splits if_splits)

lemma response_entry_no_displayname:
  "\<not> string_includes ''<D:displayname>'' b \<Longrightarrow> response_entry p fp b = Inr None"
  using match_group_missing [of "''<D:displayname>''" b dot "''</D:displayname>''"]
  by (simp add: response_entry_def Let_def split: option.splits)

lemma response_entry_throws:
  "entry_throws p fp b \<Longrightarrow>
     \<exists>h e. match_group ''<D:href>'' dot ''</D:href>'' b = Some h
           \<and> decodeURIComponent p (decodeXml h) = Inl e"
  by (auto simp: entry_throws_def response_entry_def Let_def
      split: option.splits sum.splits if_splits)

lemma response_entry_self:
  assumes "match_group ''<D:href>'' dot ''</D:href>'' b = Some h"
    and "decodeURIComponent p (decodeXml h) = Inr d"
    and "strip_leading_slash d = strip_leading_slash fp
         \<or> strip_leading_slash d = strip_leading_slash fp @ ''/''"
  shows "response_entry p fp b = Inr None"
  using assms by (auto simp: response_entry_def Let_def split: option.splits)

text \<open>
  When the prefix ends with a separator, as every non-empty prefix that \<^verbatim>\<open>listObjects\<close>
  passes does, the entry whose href is this prefix without the trailing separator is not
  skipped.
\<close>

lemma response_entry_self_not_skipped:
  assumes "match_group ''<D:href>'' dot ''</D:href>'' b = Some h"
    and "decodeURIComponent p (decodeXml h) = Inr d"
    and "match_group ''<D:displayname>'' dot ''</D:displayname>'' b = Some n"
    and "decodeXml n \<noteq> []"
    and "strip_leading_slash fp = q @ ''/''"
    and "strip_leading_slash d = q"
  shows "\<exists>obj. response_entry p fp b = Inr (Some obj) \<and> name obj = decodeXml n"
  using assms by (simp add: response_entry_def Let_def)







text \<open>
  Above \<^verbatim>\<open>2^53\<close> the digits are rounded: \<^verbatim>\<open>9007199254740993\<close> is read as
  \<^verbatim>\<open>9007199254740992\<close>.
\<close>

lemma parseInt10_rounds:
  "parseInt10 ''9007199254740993'' = Num 9007199254740992"
  by code_simp

subsection \<open>Concrete listings\<close>

lemma codeunit_compare_total:
  "codeunit_compare a b \<le> 0 \<or> codeunit_compare b a \<le> 0"
  by (induction a b rule: codeunit_compare.induct) auto

lemma codeunit_compare_trans:
  "codeunit_compare a b \<le> 0 \<Longrightarrow> codeunit_compare b c \<le> 0 \<Longrightarrow> codeunit_compare a c \<le> 0"
proof (induction a arbitrary: b c)
  case Nil
  then show ?case by (cases c) auto
next
  case (Cons x xs)
  from Cons.prems obtain y ys where b: "b = y # ys" by (cases b) auto
  with Cons.prems obtain z zs where c: "c = z # zs" by (cases c) (auto split: if_splits)
  from Cons.prems Cons.IH [of ys zs] show ?case
    unfolding b c by (auto split: if_splits)
qed



lemma listing_mixed:
  "parsePropfindResponse (demo_platform (Rejects NonError)) demo_config
     ''<D:response><D:href>/docs/b</D:href><D:displayname>b</D:displayname></D:response><D:response><D:href>/docs/A/</D:href><D:displayname>A</D:displayname><D:resourcetype><D:collection/></D:resourcetype></D:response><D:response><D:href>/docs/a</D:href><D:displayname>a</D:displayname></D:response>''
     ''docs/'' ''docs/''
   = Inr \<lparr>objects = [\<lparr>key = ''A'', name = ''A'', size' = Num 0, lastModified = [],
                        isDirectory = True, etag = None\<rparr>,
                       \<lparr>key = ''a'', name = ''a'', size' = Num 0, lastModified = [],
                        isDirectory = False, etag = None\<rparr>,
                       \<lparr>key = ''b'', name = ''b'', size' = Num 0, lastModified = [],
                        isDirectory = False, etag = None\<rparr>],
          prefixes = [''A''], isTruncated = False, nextContinuationToken = None\<rparr>"
  by code_simp

lemma listing_nameless_then_file:
  "parsePropfindResponse (demo_platform (Rejects NonError)) demo_config
     ''<D:response><D:href>/docs/x</D:href></D:response><D:response><D:href>/docs/a</D:href><D:displayname>a</D:displayname></D:response>''
     ''docs/'' ''docs/''
   = Inr \<lparr>objects = [\<lparr>key = ''a'', name = ''a'', size' = Num 0, lastModified = [],
                        isDirectory = False, etag = None\<rparr>],
          prefixes = [], isTruncated = False, nextContinuationToken = None\<rparr>"
  by code_simp

text \<open>
  C5. The specification excludes the entry of the queried directory whether its href
  ends with a separator or not. \<^verbatim>\<open>listObjects\<close> always passes a prefix that ends with a
  separator, and the parse compares the href with this prefix and with this prefix
  followed by one more separator: for the prefix \<^verbatim>\<open>docs/\<close> these are \<^verbatim>\<open>docs/\<close> and
  \<^verbatim>\<open>docs//\<close>. So the entry with href \<^verbatim>\<open>/docs/\<close> is skipped, and the entry of the same
  directory with href \<^verbatim>\<open>/docs\<close> is listed as its own child (in general:
  \<open>response_entry_self\<close> and \<open>response_entry_self_not_skipped\<close>).
\<close>

theorem self_entry_without_trailing_separator_listed:
  "listObjects
     (demo_platform (demo_response 207
        ''<D:response><D:href>/docs</D:href><D:displayname>docs</D:displayname><D:resourcetype><D:collection/></D:resourcetype></D:response>''))
     demo_config ''docs''
   = Inr \<lparr>objects = [\<lparr>key = ''docs'', name = ''docs'', size' = Num 0, lastModified = [],
                        isDirectory = True, etag = None\<rparr>],
          prefixes = [''docs''], isTruncated = False, nextContinuationToken = None\<rparr>
   \<and> listObjects
     (demo_platform (demo_response 207
        ''<D:response><D:href>/docs/</D:href><D:displayname>docs</D:displayname><D:resourcetype><D:collection/></D:resourcetype></D:response>''))
     demo_config ''docs''
   = Inr \<lparr>objects = [], prefixes = [], isTruncated = False, nextContinuationToken = None\<rparr>"
  by code_simp

text \<open>
  C6: when \<^verbatim>\<open>localeCompare\<close> is a consistent comparison (any two strings are comparable,
  and the order is transitive), the objects of a returned listing are the objects of the
  entries of the body, in an order in which every directory stands before every file
  and, within the directories and within the files, the names ascend under
  \<^verbatim>\<open>localeCompare\<close>. This holds for every body, so for every order of its entries.
\<close>

theorem listing_sorted:
  assumes total: "\<forall>a b. localeCompare p a b \<le> 0 \<or> localeCompare p b a \<le> 0"
    and trans: "\<forall>a b c. localeCompare p a b \<le> 0 \<and> localeCompare p b c \<le> 0
                  \<longrightarrow> localeCompare p a c \<le> 0"
    and parse: "parsePropfindResponse p cfg xml fp dp = Inr r"
  shows "sorted_wrt
           (\<lambda>a b. (isDirectory b \<longrightarrow> isDirectory a)
                  \<and> (isDirectory a = isDirectory b \<longrightarrow> localeCompare p (name a) (name b) \<le> 0))
           (objects r)
       \<and> mset (objects r) = mset (concat (map (entry_objects p fp) (responses xml)))"
proof -
  let ?cmp = "compare_objects p"
  let ?all = "concat (map (entry_objects p fp) (responses xml))"
  have t: "?cmp a b \<le> 0 \<or> ?cmp b a \<le> 0" for a b
  proof (cases "isDirectory a = isDirectory b")
    case True
    with total show ?thesis unfolding compare_objects_le by metis
  next
    case False
    then show ?thesis unfolding compare_objects_le by blast
  qed
  have tr: "?cmp a c \<le> 0" if ab: "?cmp a b \<le> 0" and bc: "?cmp b c \<le> 0" for a b c
  proof -
    from ab have ab1: "isDirectory b \<longrightarrow> isDirectory a"
      and ab2: "isDirectory a = isDirectory b \<longrightarrow> localeCompare p (name a) (name b) \<le> 0"
      unfolding compare_objects_le by blast+
    from bc have bc1: "isDirectory c \<longrightarrow> isDirectory b"
      and bc2: "isDirectory b = isDirectory c \<longrightarrow> localeCompare p (name b) (name c) \<le> 0"
      unfolding compare_objects_le by blast+
    have 1: "isDirectory c \<longrightarrow> isDirectory a" using ab1 bc1 by blast
    have 2: "isDirectory a = isDirectory c \<longrightarrow> localeCompare p (name a) (name c) \<le> 0"
    proof
      assume eq: "isDirectory a = isDirectory c"
      with ab1 bc1 have "isDirectory a = isDirectory b" "isDirectory b = isDirectory c"
        by blast+
      with ab2 bc2 have "localeCompare p (name a) (name b) \<le> 0"
        and "localeCompare p (name b) (name c) \<le> 0" by blast+
      with trans show "localeCompare p (name a) (name c) \<le> 0" by blast
    qed
    from 1 2 show ?thesis unfolding compare_objects_le by blast
  qed
  have "sorted_wrt (\<lambda>a b. ?cmp a b \<le> 0) (js_sort ?cmp ?all)"
    by (rule sorted_js_sort) (rule t, rule tr)
  then have "sorted_wrt (\<lambda>a b. ?cmp a b \<le> 0) (objects r)"
    unfolding parsePropfindResponse_objects(1) [OF parse] .
  then have s: "sorted_wrt
           (\<lambda>a b. (isDirectory b \<longrightarrow> isDirectory a)
                  \<and> (isDirectory a = isDirectory b \<longrightarrow> localeCompare p (name a) (name b) \<le> 0))
           (objects r)"
    unfolding compare_objects_le .
  have m: "mset (objects r) = mset ?all"
    unfolding parsePropfindResponse_objects(1) [OF parse] by (rule mset_js_sort)
  from s m show ?thesis by (rule conjI)
qed

text \<open>
  An instance of C6: a body with the file \<^verbatim>\<open>b\<close>, the directory \<^verbatim>\<open>A\<close> and the file \<^verbatim>\<open>a\<close>, in
  this order, on the platform that compares code units.
\<close>

theorem listing_sorted_witness:
  "parsePropfindResponse (demo_platform (Rejects NonError)) demo_config
     ''<D:response><D:href>/docs/b</D:href><D:displayname>b</D:displayname></D:response><D:response><D:href>/docs/A/</D:href><D:displayname>A</D:displayname><D:resourcetype><D:collection/></D:resourcetype></D:response><D:response><D:href>/docs/a</D:href><D:displayname>a</D:displayname></D:response>''
     ''docs/'' ''docs/''
   = Inr \<lparr>objects = [\<lparr>key = ''A'', name = ''A'', size' = Num 0, lastModified = [],
                        isDirectory = True, etag = None\<rparr>,
                       \<lparr>key = ''a'', name = ''a'', size' = Num 0, lastModified = [],
                        isDirectory = False, etag = None\<rparr>,
                       \<lparr>key = ''b'', name = ''b'', size' = Num 0, lastModified = [],
                        isDirectory = False, etag = None\<rparr>],
          prefixes = [''A''], isTruncated = False, nextContinuationToken = None\<rparr>
   \<and> sorted_wrt
       (\<lambda>a b. (isDirectory b \<longrightarrow> isDirectory a)
              \<and> (isDirectory a = isDirectory b
                  \<longrightarrow> localeCompare (demo_platform (Rejects NonError)) (name a) (name b) \<le> 0))
       [\<lparr>key = ''A'', name = ''A'', size' = Num 0, lastModified = [],
          isDirectory = True, etag = None\<rparr>,
        \<lparr>key = ''a'', name = ''a'', size' = Num 0, lastModified = [],
          isDirectory = False, etag = None\<rparr>,
        \<lparr>key = ''b'', name = ''b'', size' = Num 0, lastModified = [],
          isDirectory = False, etag = None\<rparr>]"
proof -
  have total: "\<forall>a b. localeCompare (demo_platform (Rejects NonError)) a b \<le> 0
                   \<or> localeCompare (demo_platform (Rejects NonError)) b a \<le> 0"
    using codeunit_compare_total by (simp add: demo_platform_def)
  have trans: "\<forall>a b c. localeCompare (demo_platform (Rejects NonError)) a b \<le> 0
                      \<and> localeCompare (demo_platform (Rejects NonError)) b c \<le> 0
                   \<longrightarrow> localeCompare (demo_platform (Rejects NonError)) a c \<le> 0"
    using codeunit_compare_trans by (simp add: demo_platform_def) blast
  from listing_sorted [OF total trans listing_mixed] have
    "sorted_wrt
       (\<lambda>a b. (isDirectory b \<longrightarrow> isDirectory a)
              \<and> (isDirectory a = isDirectory b
                  \<longrightarrow> localeCompare (demo_platform (Rejects NonError)) (name a) (name b) \<le> 0))
       [\<lparr>key = ''A'', name = ''A'', size' = Num 0, lastModified = [],
          isDirectory = True, etag = None\<rparr>,
        \<lparr>key = ''a'', name = ''a'', size' = Num 0, lastModified = [],
          isDirectory = False, etag = None\<rparr>,
        \<lparr>key = ''b'', name = ''b'', size' = Num 0, lastModified = [],
          isDirectory = False, etag = None\<rparr>]"
    by simp
  with listing_mixed show ?thesis by (rule conjI)
qed

text \<open>
  Entries with a missing field, in general: an entry without a display-name element is
  skipped and throws nothing; an entry without a content-length element has size 0 when
  it is listed, and it is listed when it has a non-empty display name and an href that
  \<^verbatim>\<open>decodeURIComponent\<close> accepts and that is not the prefix; handling an entry throws only
  when \<^verbatim>\<open>decodeURIComponent\<close> throws on its href; the listing call returns exactly when
  no entry of the body throws, and then its objects are those of all the entries of the
  body, whatever stands before them.
\<close>

lemma response_entry_listed_without_length:
  assumes "\<not> string_includes ''<D:getcontentlength>'' b"
    and "match_group ''<D:href>'' dot ''</D:href>'' b = Some h"
    and "match_group ''<D:displayname>'' dot ''</D:displayname>'' b = Some n"
    and "decodeXml n \<noteq> []"
    and "decodeURIComponent p (decodeXml h) = Inr d"
    and "strip_leading_slash d \<noteq> strip_leading_slash fp"
    and "strip_leading_slash d \<noteq> strip_leading_slash fp @ ''/''"
  shows "\<exists>obj. response_entry p fp b = Inr (Some obj) \<and> name obj = decodeXml n
               \<and> size' obj = Num 0"
  using match_group_missing [OF assms(1), of dot "''</D:getcontentlength>''"] assms(2-7)
  by (simp add: response_entry_def Let_def)

lemma entries_with_missing_fields:
  "(\<not> string_includes ''<D:displayname>'' b \<longrightarrow> response_entry p fp b = Inr None)
   \<and> (\<not> string_includes ''<D:getcontentlength>'' b \<longrightarrow>
        (\<forall>obj. response_entry p fp b = Inr (Some obj) \<longrightarrow> size' obj = Num 0)
        \<and> (\<forall>h n d.
              match_group ''<D:href>'' dot ''</D:href>'' b = Some h
              \<and> match_group ''<D:displayname>'' dot ''</D:displayname>'' b = Some n
              \<and> decodeXml n \<noteq> []
              \<and> decodeURIComponent p (decodeXml h) = Inr d
              \<and> strip_leading_slash d \<noteq> strip_leading_slash fp
              \<and> strip_leading_slash d \<noteq> strip_leading_slash fp @ ''/''
              \<longrightarrow> (\<exists>obj. response_entry p fp b = Inr (Some obj) \<and> name obj = decodeXml n
                         \<and> size' obj = Num 0)))
   \<and> (entry_throws p fp b \<longrightarrow>
        (\<exists>h e. match_group ''<D:href>'' dot ''</D:href>'' b = Some h
              \<and> decodeURIComponent p (decodeXml h) = Inl e))
   \<and> ((\<exists>r. parsePropfindResponse p cfg xml fp dp = Inr r)
        = (\<forall>b'\<in>set (responses xml). \<not> entry_throws p fp b'))
   \<and> (\<forall>r. parsePropfindResponse p cfg xml fp dp = Inr r \<longrightarrow>
        mset (objects r) = mset (concat (map (entry_objects p fp) (responses xml)))
        \<and> prefixes r
            = map key (filter isDirectory (concat (map (entry_objects p fp) (responses xml)))))"
proof (intro conjI impI allI)
  assume "\<not> string_includes ''<D:displayname>'' b"
  then show "response_entry p fp b = Inr None" by (rule response_entry_no_displayname)
next
  fix obj
  assume m: "\<not> string_includes ''<D:getcontentlength>'' b"
    and e: "response_entry p fp b = Inr (Some obj)"
  from match_group_missing [OF m] response_entry_size [OF e]
  show "size' obj = Num 0" by simp
next
  fix h n d
  assume m: "\<not> string_includes ''<D:getcontentlength>'' b"
    and a: "match_group ''<D:href>'' dot ''</D:href>'' b = Some h
              \<and> match_group ''<D:displayname>'' dot ''</D:displayname>'' b = Some n
              \<and> decodeXml n \<noteq> []
              \<and> decodeURIComponent p (decodeXml h) = Inr d
              \<and> strip_leading_slash d \<noteq> strip_leading_slash fp
              \<and> strip_leading_slash d \<noteq> strip_leading_slash fp @ ''/''"
  from a show "\<exists>obj. response_entry p fp b = Inr (Some obj) \<and> name obj = decodeXml n
                    \<and> size' obj = Num 0"
    using response_entry_listed_without_length
            [OF m, where h = h and n = n and d = d and p = p and fp = fp]
    by blast
next
  assume "entry_throws p fp b"
  then show "\<exists>h e. match_group ''<D:href>'' dot ''</D:href>'' b = Some h
                  \<and> decodeURIComponent p (decodeXml h) = Inl e"
    by (rule response_entry_throws)
next
  show "(\<exists>r. parsePropfindResponse p cfg xml fp dp = Inr r)
          = (\<forall>b'\<in>set (responses xml). \<not> entry_throws p fp b')"
    by (rule parsePropfindResponse_returns)
next
  fix r
  assume r: "parsePropfindResponse p cfg xml fp dp = Inr r"
  show "mset (objects r) = mset (concat (map (entry_objects p fp) (responses xml)))"
    by (simp add: parsePropfindResponse_objects(1) [OF r] mset_js_sort)
  show "prefixes r
          = map key (filter isDirectory (concat (map (entry_objects p fp) (responses xml))))"
    by (rule parsePropfindResponse_objects(2) [OF r])
qed

text \<open>
  A body of two entries. The first has no content-length element, and its href
  \<^verbatim>\<open>/docs/%\<close> has a \<^verbatim>\<open>%\<close> that starts no escape; the second is in order.
\<close>

lemma listing_malformed_href:
  "responses
     ''<D:response><D:href>/docs/%</D:href><D:displayname>a</D:displayname></D:response><D:response><D:href>/docs/b</D:href><D:displayname>b</D:displayname></D:response>''
   = [''<D:href>/docs/%</D:href><D:displayname>a</D:displayname>'',
      ''<D:href>/docs/b</D:href><D:displayname>b</D:displayname>'']"
  "response_entry (demo_platform (Rejects NonError)) ''docs/''
     ''<D:href>/docs/%</D:href><D:displayname>a</D:displayname>''
   = Inl (Error ''URI malformed'')"
  "response_entry (demo_platform (Rejects NonError)) ''docs/''
     ''<D:href>/docs/b</D:href><D:displayname>b</D:displayname>''
   = Inr (Some \<lparr>key = ''b'', name = ''b'', size' = Num 0, lastModified = [],
                isDirectory = False, etag = None\<rparr>)"
  "parsePropfindResponse (demo_platform (Rejects NonError)) demo_config
     ''<D:response><D:href>/docs/%</D:href><D:displayname>a</D:displayname></D:response><D:response><D:href>/docs/b</D:href><D:displayname>b</D:displayname></D:response>''
     ''docs/'' ''docs/''
   = Inl (Error ''URI malformed'')"
  "listObjects
     (demo_platform (demo_response 207
        ''<D:response><D:href>/docs/%</D:href><D:displayname>a</D:displayname></D:response><D:response><D:href>/docs/b</D:href><D:displayname>b</D:displayname></D:response>''))
     demo_config ''docs''
   = Inl (Error ''WebDAV listObjects failed: URI malformed'')"
  by code_simp+

text \<open>
  C7. The specification lets an entry without a content-length element parse with size
  0 and the processing go on with the entries after it, for every body, and lets no
  malformed output of the server fail the whole listing call. In the body above the
  first entry has no content-length element and \<^verbatim>\<open>decodeURIComponent\<close> throws on its
  href. Nothing in the loop catches this: the entry gets no size, the second entry,
  which would be listed, is not reached, and \<^verbatim>\<open>listObjects\<close> fails.
\<close>

theorem malformed_href_fails_listing:
  "responses
     ''<D:response><D:href>/docs/%</D:href><D:displayname>a</D:displayname></D:response><D:response><D:href>/docs/b</D:href><D:displayname>b</D:displayname></D:response>''
   = [''<D:href>/docs/%</D:href><D:displayname>a</D:displayname>'',
      ''<D:href>/docs/b</D:href><D:displayname>b</D:displayname>'']
   \<and> \<not> string_includes ''<D:getcontentlength>''
         ''<D:href>/docs/%</D:href><D:displayname>a</D:displayname>''
   \<and> response_entry (demo_platform (Rejects NonError)) ''docs/''
         ''<D:href>/docs/%</D:href><D:displayname>a</D:displayname>''
       = Inl (Error ''URI malformed'')
   \<and> response_entry (demo_platform (Rejects NonError)) ''docs/''
         ''<D:href>/docs/b</D:href><D:displayname>b</D:displayname>''
       = Inr (Some \<lparr>key = ''b'', name = ''b'', size' = Num 0, lastModified = [],
                    isDirectory = False, etag = None\<rparr>)
   \<and> parsePropfindResponse (demo_platform (Rejects NonError)) demo_config
     ''<D:response><D:href>/docs/%</D:href><D:displayname>a</D:displayname></D:response><D:response><D:href>/docs/b</D:href><D:displayname>b</D:displayname></D:response>''
     ''docs/'' ''docs/''
       = Inl (Error ''URI malformed'')
   \<and> listObjects
     (demo_platform (demo_response 207
        ''<D:response><D:href>/docs/%</D:href><D:displayname>a</D:displayname></D:response><D:response><D:href>/docs/b</D:href><D:displayname>b</D:displayname></D:response>''))
     demo_config ''docs''
       = Inl (Error ''WebDAV listObjects failed: URI malformed'')"
  using listing_malformed_href by simp





end
